theory Spec2Isabelle
  imports Main
begin

section \<open>The page component of src/app/page.tsx\<close>

text \<open>
  The component \<open>Home\<close> keeps five pieces of React state (\<open>message\<close>, \<open>progress\<close>,
  \<open>predictionOn\<close>, \<open>prediction\<close>, \<open>error\<close>), submits the prompt in
  \<open>handleButtonClick\<close>, polls the status resource in a \<open>while\<close> loop, and animates a
  progress bar from a \<open>setInterval\<close> callback. The embedding below follows one call of
  \<open>handleButtonClick\<close>: the network and the scheduler are an explicit environment, every
  \<open>throw\<close> is a value, and the state is passed along. The state a call starts from may
  be the one an earlier call has left, with an interval of that call still running.
\<close>

subsection \<open>Data\<close>

text \<open>
  The interface \<open>Prediction\<close>. The value is whatever \<open>response.json()\<close> yields, which is
  not checked against the interface at run time, so every field may be missing: \<open>None\<close>
  is a field that is absent from the body, as \<open>detail\<close> may be by the interface itself
  and as an error body \<open>{detail: ...}\<close> has it for the other three. The field \<open>id\<close> is
  called \<open>pid\<close>.
\<close>

record Prediction =
  "output" :: "string list option"
  status :: "string option"
  pid :: "string option"
  detail :: "string option"

text \<open>What a \<open>throw\<close> or a rejected promise carries: an \<open>Error\<close> with its message, or
  some other value (for which \<open>error instanceof Error\<close> is false).\<close>

datatype exn = Error string | NotAnError

text \<open>The value of \<open>await response.json()\<close>: \<open>null\<close> or an object. (A body that is
  a bare number, string, boolean or array is not modelled.)\<close>

datatype body = JNull | JObj Prediction

text \<open>
  An awaited promise either fulfils or rejects. While the handler is suspended the
  callbacks of running intervals may fire; the first argument lists, in the order of the
  firings, the handles of the intervals whose callback runs (the handle of an interval
  that is not running does nothing).
\<close>

datatype 'a awaited = Fulfils "nat list" 'a | Rejects "nat list" exn

record response =
  http_status :: nat
  json :: "body awaited"

text \<open>One iteration of the polling loop as the environment sees it: the callbacks that
  run during \<open>sleep(2000)\<close>, and the outcome of the status fetch.\<close>

record poll =
  sleep_ticks :: "nat list"
  fetched :: "response awaited"

record env =
  created :: "response awaited"
  polls :: "poll list"

text \<open>What the handler itself does, in program order.\<close>

datatype action =
    SetError "string option"
  | SetPredictionOn bool
  | SetPrediction "Prediction option"
  | SetProgress nat
  | Post string string
  | Get string
  | Sleep nat
  | SetInterval nat
  | ClearInterval
  | ConsoleLog string

text \<open>
  The state: the five \<open>useState\<close> cells; the intervals that are running, in the order
  in which they were started, each with the handle \<open>setInterval\<close> returned for it and
  with its captured counter \<open>progressValue\<close>; the handle the next \<open>setInterval\<close> will
  return; the handler's actions so far; and every value \<open>progress\<close> has been set to, by
  the handler or by an interval callback, in the order of the writes. An interval
  that no path has cleared stays in \<open>timers\<close> when the handler ends, and is there when
  the next call begins.
\<close>

record home =
  message :: string
  progress :: nat
  predictionOn :: bool
  prediction :: "Prediction option"
  error :: "string option"
  timers :: "(nat \<times> nat) list"
  next_handle :: nat
  effects :: "action list"
  progress_log :: "nat list"

text \<open>The promise returned by the \<open>async\<close> handler: resolved, rejected with the thrown
  value, or still suspended where the environment's script ends.\<close>

datatype outcome = Resolved home | Rejected exn home | Pending home

subsection \<open>State setters and the interval callback\<close>

definition emit :: "action \<Rightarrow> home \<Rightarrow> home" where
  "emit a s = s\<lparr>effects := effects s @ [a]\<rparr>"

definition write_progress :: "nat \<Rightarrow> home \<Rightarrow> home" where
  "write_progress v s = s\<lparr>progress := v, progress_log := progress_log s @ [v]\<rparr>"

definition setError :: "string option \<Rightarrow> home \<Rightarrow> home" where
  "setError e s = emit (SetError e) (s\<lparr>error := e\<rparr>)"

definition setPredictionOn :: "bool \<Rightarrow> home \<Rightarrow> home" where
  "setPredictionOn b s = emit (SetPredictionOn b) (s\<lparr>predictionOn := b\<rparr>)"

definition setPrediction :: "Prediction option \<Rightarrow> home \<Rightarrow> home" where
  "setPrediction p s = emit (SetPrediction p) (s\<lparr>prediction := p\<rparr>)"

definition setProgress :: "nat \<Rightarrow> home \<Rightarrow> home" where
  "setProgress v s = emit (SetProgress v) (write_progress v s)"

text \<open>
  \<open>setInterval\<close> starts an interval whose counter \<open>progressValue\<close> is 1; the handle
  it returns is \<open>next_handle\<close> of the state it is applied to. \<open>clearInterval h\<close> stops
  the interval with the handle \<open>h\<close> and no other.
\<close>

definition setInterval :: "nat \<Rightarrow> home \<Rightarrow> home" where
  "setInterval ms s =
     emit (SetInterval ms)
       (s\<lparr>timers := timers s @ [(next_handle s, 1)], next_handle := Suc (next_handle s)\<rparr>)"

definition drop_timer :: "nat \<Rightarrow> (nat \<times> nat) list \<Rightarrow> (nat \<times> nat) list" where
  "drop_timer h ts = filter (\<lambda>(k, v). k \<noteq> h) ts"

definition bump :: "nat \<Rightarrow> (nat \<times> nat) list \<Rightarrow> (nat \<times> nat) list" where
  "bump h ts = map (\<lambda>(k, v). if k = h then (k, v + 1) else (k, v)) ts"

definition clearInterval :: "nat \<Rightarrow> home \<Rightarrow> home" where
  "clearInterval h s = emit ClearInterval (s\<lparr>timers := drop_timer h (timers s)\<rparr>)"

text \<open>
  The callback given to \<open>setInterval\<close>, for the interval with the handle \<open>h\<close>:
  \<^verbatim>\<open>if (progressValue <= 100) { setProgress(progressValue++); } else { clearInterval(progressInterval); }\<close>
  It is not part of the handler's program order, so it leaves \<open>effects\<close> alone.
\<close>

definition fire :: "nat \<Rightarrow> home \<Rightarrow> home" where
  "fire h s =
     (case map_of (timers s) h of
        None \<Rightarrow> s
      | Some v \<Rightarrow>
          if v \<le> 100 then write_progress v (s\<lparr>timers := bump h (timers s)\<rparr>)
          else s\<lparr>timers := drop_timer h (timers s)\<rparr>)"

fun fires :: "nat list \<Rightarrow> home \<Rightarrow> home" where
  "fires [] s = s"
| "fires (h # hs) s = fires hs (fire h s)"

subsection \<open>Texts\<close>

definition too_long_text :: string where
  "too_long_text =
     ''Your message exceeds the 2000 characters limit. Please shorten your message and try again.''"

definition rate_limit_text :: string where
  "rate_limit_text =
     ''You have reached your request limit of 5 for the hour. Try again after sometime.''"

definition no_text_text :: string where
  "no_text_text = ''No text entered. Please enter a prompt and try again.''"

definition fetch_problem_text :: string where
  "fetch_problem_text = ''There was a problem with the fetch operation: ''"

definition apiRoute :: string where
  "apiRoute = ''/api/prediction''"

definition digit :: "nat \<Rightarrow> char" where
  "digit d = ''0123456789'' ! d"

text \<open>The decimal text of a status code, as the template literal prints it.\<close>

fun decimal :: "nat \<Rightarrow> string" where
  "decimal n = (if n < 10 then [digit n] else decimal (n div 10) @ [digit (n mod 10)])"

declare decimal.simps [simp del]

text \<open>The message of the \<open>TypeError\<close> raised by reading a property of \<open>null\<close> (the
  wording is the engine's; this is V8's).\<close>

definition null_property_text :: "string \<Rightarrow> string" where
  "null_property_text prop =
     ''Cannot read properties of null (reading '' @ [CHR 0x27] @ prop @ [CHR 0x27] @ '')''"

subsection \<open>The polling loop\<close>

definition in_progress :: "Prediction \<Rightarrow> bool" where
  "in_progress p = (status p \<noteq> Some ''succeeded'' \<and> status p \<noteq> Some ''failed'')"

text \<open>
  \<^verbatim>\<open>
  while (prediction.status !== "succeeded" && prediction.status !== "failed") {
    await sleep(2000);
    response = await fetch(predictionsIdUrl);
    prediction = await response.json();
    if (response.status !== 200) { setError(prediction.detail); return; }
    setPrediction(prediction);
    if (prediction.status === "succeeded") {
      clearInterval(progressInterval); setProgress(100); setPredictionOn(false);
    }
  }
  \<close>
  The loop runs on the script of poll outcomes; where the script ends with the job still
  in progress the handler is suspended (\<open>Pending\<close>). The argument \<open>h\<close> is the handle
  held by the constant \<open>progressInterval\<close>.
\<close>

fun poll_loop :: "string \<Rightarrow> nat \<Rightarrow> Prediction \<Rightarrow> poll list \<Rightarrow> home \<Rightarrow> outcome" where
  "poll_loop url h p [] s = (if in_progress p then Pending s else Resolved s)"
| "poll_loop url h p (e # rest) s =
     (if in_progress p then
        (let s1 = fires (sleep_ticks e) (emit (Sleep 2000) s);
             s2 = emit (Get url) s1
         in case fetched e of
              Rejects n x \<Rightarrow> Rejected x (fires n s2)
            | Fulfils n r \<Rightarrow>
                (let s3 = fires n s2
                 in case json r of
                      Rejects m x \<Rightarrow> Rejected x (fires m s3)
                    | Fulfils m b \<Rightarrow>
                        (let s4 = fires m s3
                         in if http_status r \<noteq> 200 then
                              (case b of
                                 JNull \<Rightarrow> Rejected (Error (null_property_text ''detail'')) s4
                               | JObj q \<Rightarrow> Resolved (setError (detail q) s4))
                            else
                              (case b of
                                 JNull \<Rightarrow>
                                   Rejected (Error (null_property_text ''status''))
                                     (setPrediction None s4)
                               | JObj q \<Rightarrow>
                                   (let s5 = setPrediction (Some q) s4;
                                        s6 = (if status q = Some ''succeeded''
                                              then setPredictionOn False
                                                     (setProgress 100 (clearInterval h s5))
                                              else s5)
                                    in poll_loop url h q rest s6)))))
      else Resolved s)"

subsection \<open>The handler\<close>

definition ok :: "response \<Rightarrow> bool" where
  "ok r = (200 \<le> http_status r \<and> http_status r \<le> 299)"

definition id_text :: "Prediction \<Rightarrow> string" where
  "id_text q = (case pid q of None \<Rightarrow> ''undefined'' | Some i \<Rightarrow> i)"

text \<open>The statements of the \<open>try\<close> block after \<open>response.json()\<close> has fulfilled.\<close>

definition after_json :: "response \<Rightarrow> body \<Rightarrow> poll list \<Rightarrow> home \<Rightarrow> outcome" where
  "after_json r b ps s =
     (if http_status r \<noteq> 201 then
        (case b of
           JNull \<Rightarrow> Rejected (Error (null_property_text ''detail'')) s
         | JObj q \<Rightarrow> Resolved (setPredictionOn False (setError (detail q) s)))
      else
        (case b of
           JNull \<Rightarrow> Resolved (setPredictionOn False (setPrediction None s))
         | JObj q \<Rightarrow>
             (let s1 = setPrediction (Some q) s;
                  predictionsIdUrl = ''/api/predictionState'' @ ''/'' @ id_text q;
                  s2 = setProgress 0 s1;
                  progressInterval = next_handle s2;
                  s3 = setInterval 750 s2
              in poll_loop predictionsIdUrl progressInterval q ps s3)))"

text \<open>\<open>let prediction = await response.json()\<close> and what follows it.\<close>

definition from_response :: "response \<Rightarrow> poll list \<Rightarrow> home \<Rightarrow> outcome" where
  "from_response r ps s =
     (case json r of
        Rejects m x \<Rightarrow> Rejected x (fires m s)
      | Fulfils m b \<Rightarrow> after_json r b ps (fires m s))"

text \<open>
  The \<open>try\<close> block: a thrown value leaves it as \<open>Rejected\<close>. The branch for 429
  has no \<open>return\<close>, so the body is parsed after it as well.
\<close>

definition try_block :: "env \<Rightarrow> string \<Rightarrow> home \<Rightarrow> outcome" where
  "try_block ev prompt s =
     (let s1 = emit (Post apiRoute prompt) s
      in case created ev of
           Rejects n x \<Rightarrow> Rejected x (fires n s1)
         | Fulfils n r \<Rightarrow>
             (let s2 = fires n s1
              in if \<not> ok r then
                   (if http_status r = 429 then
                      from_response r (polls ev)
                        (setPredictionOn False (setError (Some rate_limit_text) s2))
                    else
                      Rejected (Error (''HTTP error! status: '' @ decimal (http_status r))) s2)
                 else from_response r (polls ev) s2))"

text \<open>The \<open>catch\<close> clause.\<close>

fun catch :: "outcome \<Rightarrow> outcome" where
  "catch (Rejected x s) =
     Resolved
       (let s1 = setPredictionOn False s
        in case x of
             Error m \<Rightarrow> emit (ConsoleLog (fetch_problem_text @ m)) s1
           | NotAnError \<Rightarrow> s1)"
| "catch (Resolved s) = Resolved s"
| "catch (Pending s) = Pending s"

text \<open>
  The two logs \<open>effects\<close> and \<open>progress_log\<close> are records kept about one call, so they
  restart with it. Nothing of the page's own state is touched: the intervals that are
  running keep running.
\<close>

definition begin_call :: "home \<Rightarrow> home" where
  "begin_call s = s\<lparr>effects := [], progress_log := []\<rparr>"

text \<open>
  \<open>handleButtonClick\<close>. A \<open>char\<close> of \<open>message\<close> stands for one UTF-16 code unit, which
  is what \<open>message.length\<close> counts.
\<close>

definition handleButtonClick :: "env \<Rightarrow> home \<Rightarrow> outcome" where
  "handleButtonClick ev s0 =
     (let s = begin_call s0
      in if message s \<noteq> [] then
           (let s1 = setError None s
            in if length (message s1) > 2000 then
                 Resolved (setError (Some too_long_text) s1)
               else
                 (let s2 = setPredictionOn True s1;
                      prompt = ''in the style of TOK,'' @ message s2 @ '' as a tattoo''
                  in catch (try_block ev prompt s2)))
         else Resolved (setError (Some no_text_text) s))"

subsection \<open>The gallery\<close>

text \<open>JavaScript's \<open>xs[i]\<close>: \<open>undefined\<close> outside the array.\<close>

definition js_index :: "'a list \<Rightarrow> int \<Rightarrow> 'a option" where
  "js_index xs i = (if 0 \<le> i \<and> i < int (length xs) then Some (xs ! nat i) else None)"

text \<open>
  The block rendered under \<open>prediction && prediction.output\<close>: the \<open>src\<close> of the four
  images, read at \<open>length - 1\<close> down to \<open>length - 4\<close>. An empty array is truthy.
\<close>

definition gallery :: "Prediction option \<Rightarrow> string option list option" where
  "gallery p =
     (case p of
        None \<Rightarrow> None
      | Some q \<Rightarrow>
          (case output q of
             None \<Rightarrow> None
           | Some out \<Rightarrow>
               Some [js_index out (int (length out) - 1),
                     js_index out (int (length out) - 2),
                     js_index out (int (length out) - 3),
                     js_index out (int (length out) - 4)]))"

definition is_request :: "action \<Rightarrow> bool" where
  "is_request a = (case a of Post u m \<Rightarrow> True | Get u \<Rightarrow> True | _ \<Rightarrow> False)"

definition is_get :: "action \<Rightarrow> bool" where
  "is_get a = (case a of Get u \<Rightarrow> True | _ \<Rightarrow> False)"

subsection \<open>Reading outcomes and scripts\<close>

text \<open>The state an outcome carries.\<close>

fun final :: "outcome \<Rightarrow> home" where
  "final (Resolved s) = s"
| "final (Rejected x s) = s"
| "final (Pending s) = s"

text \<open>The poll \<open>e\<close> is answered with status 200 and the object \<open>q\<close>.\<close>

definition answers :: "poll \<Rightarrow> Prediction \<Rightarrow> bool" where
  "answers e q =
     (case fetched e of
        Rejects n x \<Rightarrow> False
      | Fulfils n r \<Rightarrow>
          http_status r = 200 \<and>
          (case json r of
             Rejects m x \<Rightarrow> False
           | Fulfils m b \<Rightarrow> b = JObj q))"

subsection \<open>Sample inputs\<close>

text \<open>The component as first rendered, with \<open>m\<close> typed into the input.\<close>

definition idle :: "string \<Rightarrow> home" where
  "idle m =
     \<lparr>message = m, progress = 0, predictionOn = False, prediction = None, error = None,
      timers = [], next_handle = 0, effects = [], progress_log = []\<rparr>"

text \<open>A body reporting job \<open>j1\<close> in status \<open>st\<close>, and a body carrying only a \<open>detail\<close>.\<close>

definition job :: "string \<Rightarrow> string list \<Rightarrow> Prediction" where
  "job st out = \<lparr>output = Some out, status = Some st, pid = Some ''j1'', detail = None\<rparr>"

definition problem :: "string \<Rightarrow> Prediction" where
  "problem d = \<lparr>output = None, status = None, pid = None, detail = Some d\<rparr>"

text \<open>A response with the given status and body, received while the intervals \<open>hs\<close>
  fire.\<close>

definition reply :: "nat list \<Rightarrow> nat \<Rightarrow> body \<Rightarrow> response awaited" where
  "reply hs c b = Fulfils hs \<lparr>http_status = c, json = Fulfils [] b\<rparr>"

text \<open>A poll: the interval with the handle 0 (the first one a fresh page starts) fires
  twice during the 2000 ms sleep and once during the fetch.\<close>

definition poll_reply :: "nat \<Rightarrow> body \<Rightarrow> poll" where
  "poll_reply c b = \<lparr>sleep_ticks = [0, 0], fetched = reply [0] c b\<rparr>"

text \<open>The service accepts the job (201, status \<open>starting\<close>) and then answers the polls
  \<open>ps\<close>.\<close>

definition accepting :: "poll list \<Rightarrow> env" where
  "accepting ps = \<lparr>created = reply [] 201 (JObj (job ''starting'' [])), polls = ps\<rparr>"

subsection \<open>Closed forms used in the proofs\<close>

text \<open>The interval callbacks that run during one iteration of the loop.\<close>

fun waits :: "'a awaited \<Rightarrow> nat list" where
  "waits (Fulfils n v) = n"
| "waits (Rejects n x) = n"

definition poll_ticks :: "poll \<Rightarrow> nat list" where
  "poll_ticks e =
     sleep_ticks e @
     (case fetched e of Rejects n x \<Rightarrow> n | Fulfils n r \<Rightarrow> n @ waits (json r))"

text \<open>The handler's actions in one iteration that publishes the job \<open>q\<close>.\<close>

definition iteration :: "string \<Rightarrow> Prediction \<Rightarrow> action list" where
  "iteration url q = [Sleep 2000, Get url, SetPrediction (Some q)]"

text \<open>The branch \<open>if (prediction.status === "succeeded")\<close> of the loop body.\<close>

definition on_succeeded :: "nat \<Rightarrow> Prediction \<Rightarrow> home \<Rightarrow> home" where
  "on_succeeded h q s =
     (if status q = Some ''succeeded''
      then setPredictionOn False (setProgress 100 (clearInterval h s)) else s)"

text \<open>The state after the iterations for the polls \<open>pre\<close>, which published the jobs \<open>qs\<close>.\<close>

definition waited :: "string \<Rightarrow> poll list \<Rightarrow> Prediction list \<Rightarrow> home \<Rightarrow> home" where
  "waited url pre qs s =
     (fires (concat (map poll_ticks pre)) s)
       \<lparr>prediction := (if qs = [] then prediction s else Some (last qs)),
        effects := effects s @ concat (map (iteration url) qs)\<rparr>"

text \<open>The state in which the loop is entered after the service has accepted the job
  \<open>q\<close>, from the state \<open>s\<close> in which the body of the creation response arrived.\<close>

definition prompt_of :: "home \<Rightarrow> string" where
  "prompt_of s = ''in the style of TOK,'' @ message s @ '' as a tattoo''"

definition accepted :: "Prediction \<Rightarrow> home \<Rightarrow> home" where
  "accepted q s =
     s\<lparr>progress := 0, predictionOn := True, prediction := Some q, error := None,
       timers := timers s @ [(next_handle s, 1)], next_handle := Suc (next_handle s),
       effects := [SetError None, SetPredictionOn True, Post apiRoute (prompt_of s),
                   SetPrediction (Some q), SetProgress 0, SetInterval 750],
       progress_log := progress_log s @ [0]\<rparr>"

definition status_url :: "Prediction \<Rightarrow> string" where
  "status_url q = ''/api/predictionState/'' @ id_text q"

text \<open>The value thrown by a poll whose fetch or whose body parsing rejects.\<close>

definition transport_failure :: "poll \<Rightarrow> exn option" where
  "transport_failure e =
     (case fetched e of
        Rejects n x \<Rightarrow> Some x
      | Fulfils n r \<Rightarrow> (case json r of Rejects m x \<Rightarrow> Some x | Fulfils m b \<Rightarrow> None))"

text \<open>What the \<open>catch\<close> clause writes to the console for the thrown value \<open>x\<close>.\<close>

definition console :: "exn \<Rightarrow> action list" where
  "console x =
     (case x of Error t \<Rightarrow> [ConsoleLog (fetch_problem_text @ t)] | NotAnError \<Rightarrow> [])"

text \<open>The handles of the running intervals.\<close>

definition handles :: "home \<Rightarrow> nat set" where
  "handles s = fst ` set (timers s)"

text \<open>
  Two clicks. The first job is accepted, and its first status fetch rejects after the
  interval has fired three times. The second job is accepted, and its first poll is
  answered with \<open>succeeded\<close> while the interval of the first click (handle 0) and the one
  of the second (handle 1) fire in turn, twice each during the sleep and once each during
  the fetch.
\<close>

definition first_click :: env where
  "first_click =
     accepting [\<lparr>sleep_ticks = [0, 0], fetched = Rejects [0] (Error ''Failed to fetch'')\<rparr>]"

definition second_click :: env where
  "second_click =
     accepting
       [\<lparr>sleep_ticks = [0, 1, 0, 1],
         fetched = reply [0, 1] 200 (JObj (job ''succeeded'' [''u1'', ''u2'', ''u3'', ''u4'']))\<rparr>]"

section \<open>Basic facts\<close>

lemmas setters = emit_def write_progress_def setError_def setPredictionOn_def
  setPrediction_def setProgress_def setInterval_def clearInterval_def

lemmas sample_defs = accepting_def reply_def poll_reply_def idle_def job_def problem_def
  first_click_def second_click_def

lemmas run_defs = handleButtonClick_def begin_call_def try_block_def from_response_def
  after_json_def ok_def Let_def setters fire_def bump_def drop_timer_def in_progress_def
  id_text_def apiRoute_def

lemma fire_keeps:
  "message (fire h s) = message s" "predictionOn (fire h s) = predictionOn s"
  "prediction (fire h s) = prediction s" "error (fire h s) = error s"
  "effects (fire h s) = effects s" "next_handle (fire h s) = next_handle s"
  by (simp_all add: fire_def write_progress_def split: option.split)

lemma fires_keeps [simp]:
  "message (fires hs s) = message s" "predictionOn (fires hs s) = predictionOn s"
  "prediction (fires hs s) = prediction s" "error (fires hs s) = error s"
  "effects (fires hs s) = effects s" "next_handle (fires hs s) = next_handle s"
  by (induction hs arbitrary: s; simp add: fire_keeps)+

lemma fire_emit: "fire h (emit a s) = emit a (fire h s)"
  by (simp add: fire_def setters split: option.split)

lemma fires_emit [simp]: "fires hs (emit a s) = emit a (fires hs s)"
  by (induction hs arbitrary: s) (simp_all add: fire_emit)

lemma fires_append: "fires bs (fires as s) = fires (as @ bs) s"
  by (induction as arbitrary: s) simp_all

lemma fire_upd:
  "fire h (s\<lparr>prediction := p\<rparr>) = (fire h s)\<lparr>prediction := p\<rparr>"
  "fire h (s\<lparr>effects := a\<rparr>) = (fire h s)\<lparr>effects := a\<rparr>"
  "fire h (s\<lparr>error := e\<rparr>) = (fire h s)\<lparr>error := e\<rparr>"
  "fire h (s\<lparr>predictionOn := b\<rparr>) = (fire h s)\<lparr>predictionOn := b\<rparr>"
  by (simp_all add: fire_def setters split: option.split)

lemma fires_upd:
  "fires hs (s\<lparr>prediction := p\<rparr>) = (fires hs s)\<lparr>prediction := p\<rparr>"
  "fires hs (s\<lparr>effects := a\<rparr>) = (fires hs s)\<lparr>effects := a\<rparr>"
  "fires hs (s\<lparr>error := e\<rparr>) = (fires hs s)\<lparr>error := e\<rparr>"
  "fires hs (s\<lparr>predictionOn := b\<rparr>) = (fires hs s)\<lparr>predictionOn := b\<rparr>"
  by (induction hs arbitrary: s; simp add: fire_upd)+

lemma handles_fire: "handles (fire h s) \<subseteq> handles s"
  by (force simp: handles_def fire_def write_progress_def bump_def drop_timer_def
      split: option.splits if_splits)

lemma handles_fires: "handles (fires hs s) \<subseteq> handles s"
proof (induction hs arbitrary: s)
  case Nil
  show ?case by simp
next
  case (Cons h hs)
  have "handles (fires hs (fire h s)) \<subseteq> handles (fire h s)" by (rule Cons.IH)
  also have "\<dots> \<subseteq> handles s" by (rule handles_fire)
  finally show ?case by simp
qed

lemma fire_absent: "h \<notin> handles s \<Longrightarrow> fire h s = s"
  by (simp add: fire_def handles_def map_of_eq_None_iff [THEN iffD2])

lemma handles_setters [simp]:
  "handles (emit a s) = handles s"
  "handles (setError e s) = handles s"
  "handles (setPredictionOn b s) = handles s"
  "handles (setPrediction p s) = handles s"
  "handles (setProgress v s) = handles s"
  "handles (begin_call s) = handles s"
  "handles (clearInterval h s) = handles s - {h}"
  by (auto simp: handles_def setters begin_call_def drop_timer_def)

lemma begin_call_fields [simp]:
  "message (begin_call s) = message s" "next_handle (begin_call s) = next_handle s"
  "predictionOn (begin_call s) = predictionOn s" "prediction (begin_call s) = prediction s"
  "error (begin_call s) = error s" "effects (begin_call s) = []"
  by (simp_all add: begin_call_def)

lemma accepting_fields:
  "created (accepting ps) =
     Fulfils [] \<lparr>http_status = 201, json = Fulfils [] (JObj (job ''starting'' []))\<rparr>"
  "polls (accepting ps) = ps"
  by (simp_all add: accepting_def reply_def)

lemma idle_message: "message (idle m) = m"
  by (simp add: idle_def)

lemma idle_handles: "handles (idle m) = {}"
  by (simp add: idle_def handles_def)

lemma answers_poll_reply: "answers (poll_reply 200 (JObj q)) q"
  by (simp add: answers_def poll_reply_def reply_def)

lemma job_in_progress:
  "in_progress (job ''starting'' out)" "in_progress (job ''processing'' out)"
  "\<not> in_progress (job ''succeeded'' out)" "\<not> in_progress (job ''failed'' out)"
  by (simp_all add: in_progress_def job_def)

section \<open>Input validation\<close>

text \<open>
  C8. An empty input and an input longer than 2000 characters both end the handler at
  once: it resolves with the validation text as the error, whatever the environment
  would have answered, having issued no request (no \<open>Post\<close>, no \<open>Get\<close>) and without
  touching the in-flight flag or the stored job; and the two texts differ.
\<close>

theorem validation_fails_fast:
  "message s = [] \<or> 2000 < length (message s) \<Longrightarrow>
   (\<exists>s'. handleButtonClick ev s = Resolved s' \<and>
         filter is_request (effects s') = [] \<and>
         predictionOn s' = predictionOn s \<and> prediction s' = prediction s \<and>
         error s' = Some (if message s = [] then no_text_text else too_long_text)) \<and>
   no_text_text \<noteq> too_long_text"
  by (auto simp: handleButtonClick_def begin_call_def setters is_request_def Let_def
      no_text_text_def too_long_text_def)

theorem validation_fails_fast_witness:
  "(\<exists>s'. handleButtonClick (accepting []) (idle []) = Resolved s' \<and>
         filter is_request (effects s') = [] \<and> error s' = Some no_text_text) \<and>
   (\<exists>s'. handleButtonClick (accepting []) (idle (replicate 2001 CHR ''a'')) = Resolved s' \<and>
         filter is_request (effects s') = [] \<and> error s' = Some too_long_text)"
  using validation_fails_fast [of "idle []" "accepting []"]
        validation_fails_fast [of "idle (replicate 2001 CHR ''a'')" "accepting []"]
  by (auto simp: idle_def)

section \<open>The gallery's reads\<close>

lemma js_index_from_end:
  "js_index xs (int (length xs) - int (Suc k)) =
     (if Suc k \<le> length xs then Some (rev xs ! k) else None)"
proof (cases "Suc k \<le> length xs")
  case True
  then have "nat (int (length xs) - int (Suc k)) = length xs - Suc k" by simp
  with True show ?thesis by (simp add: js_index_def rev_nth)
next
  case False
  then show ?thesis by (simp add: js_index_def)
qed

lemma take_four: "4 \<le> length ys \<Longrightarrow> take 4 ys = [ys ! 0, ys ! 1, ys ! 2, ys ! 3]"
  by (auto simp: numeral_eq_Suc Suc_le_length_iff)

text \<open>
  C10 as stated fails: it takes the reads at \<open>length - 2\<close>, \<open>length - 3\<close> and
  \<open>length - 4\<close> to be out of bounds for every non-empty list shorter than 4. For a list
  of three entries the reads at \<open>length - 2\<close> and \<open>length - 3\<close> are inside the list, and
  only the fourth source is undefined.
\<close>

theorem gallery_reads_counterexample:
  "[''u1'', ''u2'', ''u3''] \<noteq> [] \<and> length [''u1'', ''u2'', ''u3''] < 4 \<and>
   js_index [''u1'', ''u2'', ''u3''] (int (length [''u1'', ''u2'', ''u3'']) - 2) = Some ''u2'' \<and>
   js_index [''u1'', ''u2'', ''u3''] (int (length [''u1'', ''u2'', ''u3'']) - 3) = Some ''u1'' \<and>
   gallery (Some (job ''processing'' [''u1'', ''u2'', ''u3''])) =
     Some [Some ''u3'', Some ''u2'', Some ''u1'', None]"
  by (simp add: gallery_def js_index_def job_def)

text \<open>
  C10, as the code has it. When the stored job has an output list, the gallery renders
  four images whose sources are read at \<open>length - 1\<close>, \<open>length - 2\<close>, \<open>length - 3\<close> and
  \<open>length - 4\<close> with no check of the length. The read at \<open>length - k\<close> is inside the
  list exactly when the list has at least \<open>k\<close> entries: with fewer than 4 entries the
  read at \<open>length - 4\<close> is always out of bounds, the one at \<open>length - 3\<close> only below 3
  entries and the one at \<open>length - 2\<close> only below 2. So all four sources are defined
  if and only if the list has at least 4 entries, and then they are its last four, the
  latest first.
\<close>

theorem gallery_reads:
  assumes "output q = Some out"
  shows "\<exists>a b c d. gallery (Some q) = Some [a, b, c, d] \<and>
     (a \<noteq> None) = (1 \<le> length out) \<and> (b \<noteq> None) = (2 \<le> length out) \<and>
     (c \<noteq> None) = (3 \<le> length out) \<and> (d \<noteq> None) = (4 \<le> length out) \<and>
     ((a \<noteq> None \<and> b \<noteq> None \<and> c \<noteq> None \<and> d \<noteq> None) = (4 \<le> length out)) \<and>
     (4 \<le> length out \<longrightarrow> [a, b, c, d] = map Some (take 4 (rev out)))"
proof -
  have idx:
    "js_index out (int (length out) - 1) = (if 1 \<le> length out then Some (rev out ! 0) else None)"
    "js_index out (int (length out) - 2) = (if 2 \<le> length out then Some (rev out ! 1) else None)"
    "js_index out (int (length out) - 3) = (if 3 \<le> length out then Some (rev out ! 2) else None)"
    "js_index out (int (length out) - 4) = (if 4 \<le> length out then Some (rev out ! 3) else None)"
    using js_index_from_end [of out 0] js_index_from_end [of out 1]
      js_index_from_end [of out 2] js_index_from_end [of out 3]
    by (simp_all add: numeral_eq_Suc)
  have g: "gallery (Some q) =
      Some [js_index out (int (length out) - 1), js_index out (int (length out) - 2),
            js_index out (int (length out) - 3), js_index out (int (length out) - 4)]"
    using assms by (simp add: gallery_def)
  show ?thesis
    unfolding g idx by (auto simp: take_four)
qed

theorem gallery_reads_witness:
  "(\<exists>a b c d. gallery (Some (job ''processing'' [''u1'', ''u2''])) = Some [a, b, c, d] \<and>
     a = Some ''u2'' \<and> b = Some ''u1'' \<and> c = None \<and> d = None) \<and>
   (\<exists>a b c d. gallery (Some (job ''succeeded'' [''u1'', ''u2'', ''u3'', ''u4'', ''u5''])) =
       Some [a, b, c, d] \<and>
     a = Some ''u5'' \<and> b = Some ''u4'' \<and> c = Some ''u3'' \<and> d = Some ''u2'')"
  using gallery_reads [of "job ''processing'' [''u1'', ''u2'']" "[''u1'', ''u2'']"]
    gallery_reads [of "job ''succeeded'' [''u1'', ''u2'', ''u3'', ''u4'', ''u5'']"
      "[''u1'', ''u2'', ''u3'', ''u4'', ''u5'']"]
  by (simp add: job_def gallery_def js_index_def)

section \<open>The polling loop, step by step\<close>

lemma poll_loop_done: "\<not> in_progress p \<Longrightarrow> poll_loop url h p ps s = Resolved s"
  by (cases ps) simp_all

lemma poll_step:
  assumes "in_progress p" "answers e q"
  shows "poll_loop url h p (e # rest) s =
         poll_loop url h q rest
           (on_succeeded h q (setPrediction (Some q)
              (emit (Get url) (emit (Sleep 2000) (fires (poll_ticks e) s)))))"
  using assms
  by (auto simp: answers_def poll_ticks_def on_succeeded_def Let_def fires_append
      split: awaited.splits body.splits)

lemma poll_fail_step:
  assumes "in_progress p" "transport_failure e = Some x"
  shows "poll_loop url h p (e # rest) s =
         Rejected x (emit (Get url) (emit (Sleep 2000) (fires (poll_ticks e) s)))"
  using assms
  by (auto simp: transport_failure_def poll_ticks_def Let_def fires_append
      split: awaited.splits)

lemma continuing_prefix:
  assumes "list_all2 answers pre qs" "list_all in_progress qs" "in_progress p"
  shows "poll_loop url h p (pre @ rest) s =
         poll_loop url h (last (p # qs)) rest (waited url pre qs s)"
  using assms
proof (induction pre qs arbitrary: p s rule: list_all2_induct)
  case Nil
  then show ?case by (simp add: waited_def)
next
  case (Cons e pre q qs)
  let ?s = "setPrediction (Some q)
      (emit (Get url) (emit (Sleep 2000) (fires (poll_ticks e) s)))"
  have "poll_loop url h p ((e # pre) @ rest) s = poll_loop url h q (pre @ rest) ?s"
  proof -
    have "status q \<noteq> Some ''succeeded''"
      using Cons.prems(1) by (simp add: in_progress_def)
    then show ?thesis
      using poll_step [OF Cons.prems(2) Cons.hyps(1), of url h "pre @ rest" s]
      by (simp add: on_succeeded_def)
  qed
  also have "\<dots> = poll_loop url h (last (q # qs)) rest (waited url pre qs ?s)"
    using Cons.prems by (intro Cons.IH) simp_all
  also have "waited url pre qs ?s = waited url (e # pre) (q # qs) s"
    by (simp add: waited_def setters fires_upd fires_append iteration_def)
  finally show ?case by simp
qed

lemma prompt_of_keeps [simp]:
  "prompt_of (fires hs s) = prompt_of s" "prompt_of (begin_call s) = prompt_of s"
  by (simp_all add: prompt_of_def)

lemma accepted_submission:
  assumes "message s \<noteq> []" "length (message s) \<le> 2000"
    and "created ev = Fulfils n r" "http_status r = 201" "json r = Fulfils m (JObj q)"
  shows "handleButtonClick ev s =
         catch (poll_loop (status_url q) (next_handle s) q (polls ev)
                  (accepted q (fires (n @ m) (begin_call s))))"
proof -
  have k: "message (fires (n @ m) (begin_call s)) = message s"
    "next_handle (fires (n @ m) (begin_call s)) = next_handle s"
    "effects (fires (n @ m) (begin_call s)) = []"
    by simp_all
  show ?thesis
    using assms k
    by (cases "fires (n @ m) (begin_call s)")
       (simp add: handleButtonClick_def try_block_def from_response_def after_json_def ok_def
        Let_def setters accepted_def status_url_def prompt_of_def fires_upd fires_append
        del: fires_keeps)
qed

lemma accepted_run:
  assumes "message s \<noteq> []" "length (message s) \<le> 2000"
    and "created ev = Fulfils n r" "http_status r = 201" "json r = Fulfils m (JObj q0)"
    and "in_progress q0" "polls ev = pre @ e # rest"
    and "list_all2 answers pre qs" "list_all in_progress qs"
    and "answers e q" "\<not> in_progress q"
  shows "handleButtonClick ev s =
         Resolved (on_succeeded (next_handle s) q (setPrediction (Some q)
           (emit (Get (status_url q0)) (emit (Sleep 2000)
              (fires (poll_ticks e)
                 (waited (status_url q0) pre qs
                    (accepted q0 (fires (n @ m) (begin_call s)))))))))"
proof -
  let ?a = "accepted q0 (fires (n @ m) (begin_call s))"
  let ?w = "waited (status_url q0) pre qs ?a"
  let ?t = "on_succeeded (next_handle s) q (setPrediction (Some q)
           (emit (Get (status_url q0)) (emit (Sleep 2000) (fires (poll_ticks e) ?w))))"
  have last: "in_progress (last (q0 # qs))"
    using assms(6,9) by (cases qs rule: rev_cases) simp_all
  have "handleButtonClick ev s =
        catch (poll_loop (status_url q0) (next_handle s) q0 (pre @ e # rest) ?a)"
    using accepted_submission [OF assms(1-5)] assms(7) by simp
  also have "poll_loop (status_url q0) (next_handle s) q0 (pre @ e # rest) ?a =
      poll_loop (status_url q0) (next_handle s) (last (q0 # qs)) (e # rest) ?w"
    by (rule continuing_prefix [OF assms(8,9,6)])
  also have "\<dots> = poll_loop (status_url q0) (next_handle s) q rest ?t"
    by (rule poll_step [OF last assms(10)])
  also have "\<dots> = Resolved ?t"
    by (rule poll_loop_done [OF assms(11)])
  finally show ?thesis by simp
qed

lemma gets_iteration:
  "filter is_get (concat (map (iteration url) qs)) = replicate (length qs) (Get url)"
  by (induction qs) (simp_all add: iteration_def is_get_def)

lemma iteration_fun:
  "iteration url = (\<lambda>q. [Sleep 2000, Get url, SetPrediction (Some q)])"
  by (rule ext) (simp add: iteration_def)

lemma waited_fields [simp]:
  "message (waited url pre qs s) = message s"
  "predictionOn (waited url pre qs s) = predictionOn s"
  "error (waited url pre qs s) = error s"
  "effects (waited url pre qs s) = effects s @ concat (map (iteration url) qs)"
  by (simp_all add: waited_def)

lemma handles_waited: "handles (waited url pre qs s) \<subseteq> handles s"
  using handles_fires [of "concat (map poll_ticks pre)" s]
  by (simp add: waited_def handles_def)

lemma accepted_fields [simp]:
  "message (accepted q s) = message s" "predictionOn (accepted q s) = True"
  "error (accepted q s) = None" "prediction (accepted q s) = Some q"
  "effects (accepted q s) =
     [SetError None, SetPredictionOn True, Post apiRoute (prompt_of s),
      SetPrediction (Some q), SetProgress 0, SetInterval 750]"
  "handles (accepted q s) = insert (next_handle s) (handles s)"
  by (auto simp: accepted_def handles_def)

text \<open>
  C5. After the service has accepted the job, every iteration of the loop that is
  answered with status 200 and a job consists of exactly three actions of the handler
  in this order: the 2000 ms sleep, the status fetch, and the publication of the fetched
  job (the whole object, with its status, output and detail). While the answers report
  a job in progress the handler stays in the loop with the last answer stored, so a
  partial output list is in the store before any terminal status arrives. The first
  answer with a terminal status is published too, and the handler resolves without
  another sleep or fetch, whatever further answers the script \<open>rest\<close> would hold.
\<close>

theorem polling_iterations:
  assumes "message s \<noteq> []" "length (message s) \<le> 2000"
    and "created ev = Fulfils n r" "http_status r = 201" "json r = Fulfils m (JObj q0)"
    and "in_progress q0" "list_all2 answers pre qs" "list_all in_progress qs"
  shows "(polls ev = pre \<longrightarrow>
      (\<exists>s'. handleButtonClick ev s = Pending s' \<and> prediction s' = Some (last (q0 # qs)) \<and>
         in_progress (last (q0 # qs)) \<and>
         effects s' = effects (accepted q0 s) @
           concat (map (\<lambda>q. [Sleep 2000, Get (status_url q0), SetPrediction (Some q)]) qs))) \<and>
    (polls ev = pre @ e # rest \<and> answers e q \<and> \<not> in_progress q \<longrightarrow>
      (\<exists>s'. handleButtonClick ev s = Resolved s' \<and> prediction s' = Some q \<and>
         effects s' = effects (accepted q0 s) @
           concat (map (\<lambda>q. [Sleep 2000, Get (status_url q0), SetPrediction (Some q)])
                    (qs @ [q])) @
           (if status q = Some ''succeeded''
            then [ClearInterval, SetProgress 100, SetPredictionOn False] else [])))"
proof (intro conjI impI)
  let ?a = "accepted q0 (fires (n @ m) (begin_call s))"
  have last: "in_progress (last (q0 # qs))"
    using assms(6,8) by (cases qs rule: rev_cases) simp_all
  assume p: "polls ev = pre"
  have "handleButtonClick ev s =
      catch (poll_loop (status_url q0) (next_handle s) q0 (pre @ []) ?a)"
    using accepted_submission [OF assms(1-5)] p by simp
  also have "poll_loop (status_url q0) (next_handle s) q0 (pre @ []) ?a =
      poll_loop (status_url q0) (next_handle s) (last (q0 # qs)) []
        (waited (status_url q0) pre qs ?a)"
    by (rule continuing_prefix [OF assms(7,8,6)])
  also have "\<dots> = Pending (waited (status_url q0) pre qs ?a)"
    using last by simp
  finally show "\<exists>s'. handleButtonClick ev s = Pending s' \<and>
         prediction s' = Some (last (q0 # qs)) \<and> in_progress (last (q0 # qs)) \<and>
         effects s' = effects (accepted q0 s) @
           concat (map (\<lambda>q. [Sleep 2000, Get (status_url q0), SetPrediction (Some q)]) qs)"
    using last by (simp add: waited_def iteration_fun)
next
  assume a: "polls ev = pre @ e # rest \<and> answers e q \<and> \<not> in_progress q"
  have run: "handleButtonClick ev s =
         Resolved (on_succeeded (next_handle s) q (setPrediction (Some q)
           (emit (Get (status_url q0)) (emit (Sleep 2000)
              (fires (poll_ticks e)
                 (waited (status_url q0) pre qs
                    (accepted q0 (fires (n @ m) (begin_call s)))))))))"
    using a by (intro accepted_run [OF assms(1-6) _ assms(7,8)]) simp_all
  show "\<exists>s'. handleButtonClick ev s = Resolved s' \<and> prediction s' = Some q \<and>
         effects s' = effects (accepted q0 s) @
           concat (map (\<lambda>q. [Sleep 2000, Get (status_url q0), SetPrediction (Some q)])
                    (qs @ [q])) @
           (if status q = Some ''succeeded''
            then [ClearInterval, SetProgress 100, SetPredictionOn False] else [])"
    unfolding run by (simp add: on_succeeded_def setters iteration_fun)
qed

theorem polling_iterations_witness:
  "(\<exists>s'. handleButtonClick (accepting [poll_reply 200 (JObj (job ''processing'' [''u1'']))])
            (idle ''a tiger'') = Pending s' \<and>
         prediction s' = Some (job ''processing'' [''u1''])) \<and>
   (\<exists>s'. handleButtonClick
            (accepting [poll_reply 200 (JObj (job ''processing'' [''u1''])),
                        poll_reply 200 (JObj (job ''failed'' [''u1''])),
                        poll_reply 200 (JObj (job ''processing'' [''u1'']))])
            (idle ''a tiger'') = Resolved s' \<and>
         prediction s' = Some (job ''failed'' [''u1'']) \<and>
         filter is_get (effects s') =
           [Get ''/api/predictionState/j1'', Get ''/api/predictionState/j1''])"
proof -
  let ?p = "poll_reply 200 (JObj (job ''processing'' [''u1'']))"
  let ?f = "poll_reply 200 (JObj (job ''failed'' [''u1'']))"
  let ?r = "\<lparr>http_status = 201, json = Fulfils [] (JObj (job ''starting'' []))\<rparr>"
  have h: "message (idle ''a tiger'') \<noteq> []" "length (message (idle ''a tiger'')) \<le> 2000"
    by (simp_all add: idle_message)
  have r: "http_status ?r = 201" "json ?r = Fulfils [] (JObj (job ''starting'' []))"
    by simp_all
  have l: "list_all2 answers [?p] [job ''processing'' [''u1'']]"
    "list_all in_progress [job ''processing'' [''u1'']]"
    by (simp_all add: answers_poll_reply job_in_progress)
  have u: "status_url (job ''starting'' []) = ''/api/predictionState/j1''"
    by (simp add: status_url_def id_text_def job_def)
  note one = polling_iterations [OF h accepting_fields(1) r job_in_progress(1) l,
      of "[?p]" ?f "[?p]" "job ''failed'' [''u1'']"]
  note two = polling_iterations [OF h accepting_fields(1) r job_in_progress(1) l,
      of "[?p, ?f, ?p]" ?f "[?p]" "job ''failed'' [''u1'']"]
  have first: "\<exists>s'. handleButtonClick (accepting [?p]) (idle ''a tiger'') = Pending s' \<and>
         prediction s' = Some (job ''processing'' [''u1''])"
    using one by (auto simp: accepting_fields)
  have second: "\<exists>s'. handleButtonClick (accepting [?p, ?f, ?p]) (idle ''a tiger'') = Resolved s' \<and>
         prediction s' = Some (job ''failed'' [''u1'']) \<and>
         filter is_get (effects s') =
           [Get ''/api/predictionState/j1'', Get ''/api/predictionState/j1'']"
    using two
    by (auto simp: accepting_fields answers_poll_reply job_in_progress u is_get_def)
  show ?thesis using first second by blast
qed

section \<open>The terminal answers\<close>

text \<open>
  C6. When, after any number of answers that report the job in progress, a poll is
  answered with status 200 and a job whose status is \<open>succeeded\<close>, the handler
  publishes that job, calls \<open>clearInterval\<close> on its own interval, sets the progress to
  exactly 100 and clears the in-flight flag, in this order, and resolves. Its interval
  is gone: a further run of its callback changes nothing, and the intervals still
  running are among those that ran before the call (none, on a fresh page).
\<close>

theorem succeeded_poll:
  assumes "message s \<noteq> []" "length (message s) \<le> 2000"
    and "created ev = Fulfils n r" "http_status r = 201" "json r = Fulfils m (JObj q0)"
    and "in_progress q0" "polls ev = pre @ e # rest"
    and "list_all2 answers pre qs" "list_all in_progress qs"
    and "answers e q" "status q = Some ''succeeded''"
  shows "\<exists>s' acts. handleButtonClick ev s = Resolved s' \<and>
      handles s' \<subseteq> handles s - {next_handle s} \<and> fire (next_handle s) s' = s' \<and>
      progress s' = 100 \<and> predictionOn s' = False \<and>
      prediction s' = Some q \<and> error s' = None \<and>
      effects s' = acts @ [SetPrediction (Some q), ClearInterval, SetProgress 100,
                           SetPredictionOn False] \<and>
      length (filter is_get (effects s')) = Suc (length pre)"
proof -
  let ?h = "next_handle s"
  let ?a = "accepted q0 (fires (n @ m) (begin_call s))"
  let ?w = "fires (poll_ticks e) (waited (status_url q0) pre qs ?a)"
  let ?s = "on_succeeded ?h q (setPrediction (Some q)
           (emit (Get (status_url q0)) (emit (Sleep 2000) ?w)))"
  have "\<not> in_progress q" using assms(11) by (simp add: in_progress_def)
  note run = accepted_run [OF assms(1-10) this]
  have len: "length qs = length pre"
    using assms(8) by (simp add: list_all2_lengthD)
  have "handles ?w \<subseteq> handles ?a"
    using handles_fires [of "poll_ticks e" "waited (status_url q0) pre qs ?a"]
      handles_waited [of "status_url q0" pre qs ?a] by blast
  also have "handles ?a = insert ?h (handles (fires (n @ m) (begin_call s)))"
    by simp
  also have "\<dots> \<subseteq> insert ?h (handles s)"
    using handles_fires [of "n @ m" "begin_call s"] by auto
  finally have hw: "handles ?w \<subseteq> insert ?h (handles s)" .
  have hs: "handles ?s \<subseteq> handles s - {?h}"
    using hw assms(11) by (auto simp: on_succeeded_def)
  then have "?h \<notin> handles ?s" by blast
  then have gone: "fire ?h ?s = ?s" by (rule fire_absent)
  have rest: "progress ?s = 100 \<and> predictionOn ?s = False \<and> prediction ?s = Some q \<and>
      error ?s = None \<and>
      (\<exists>acts. effects ?s = acts @ [SetPrediction (Some q), ClearInterval, SetProgress 100,
                           SetPredictionOn False]) \<and>
      length (filter is_get (effects ?s)) = Suc (length pre)"
    using assms(11) len
    by (simp add: on_succeeded_def setters gets_iteration is_get_def)
  show ?thesis
    unfolding run using hs gone rest by blast
qed

theorem succeeded_poll_witness:
  "\<exists>s' acts. handleButtonClick
       (accepting [poll_reply 200 (JObj (job ''processing'' [''u1''])),
                   poll_reply 200 (JObj (job ''succeeded'' [''u1'', ''u2'', ''u3'', ''u4'']))])
       (idle ''a tiger'') = Resolved s' \<and>
     timers s' = [] \<and> progress s' = 100 \<and> predictionOn s' = False \<and>
     prediction s' = Some (job ''succeeded'' [''u1'', ''u2'', ''u3'', ''u4'']) \<and>
     length (filter is_get (effects s')) = 2"
proof -
  let ?p = "poll_reply 200 (JObj (job ''processing'' [''u1'']))"
  let ?q = "job ''succeeded'' [''u1'', ''u2'', ''u3'', ''u4'']"
  let ?r = "\<lparr>http_status = 201, json = Fulfils [] (JObj (job ''starting'' []))\<rparr>"
  have h: "message (idle ''a tiger'') \<noteq> []" "length (message (idle ''a tiger'')) \<le> 2000"
    by (simp_all add: idle_message)
  have r: "http_status ?r = 201" "json ?r = Fulfils [] (JObj (job ''starting'' []))"
    by simp_all
  have ps: "polls (accepting [?p, poll_reply 200 (JObj ?q)]) = [?p] @ poll_reply 200 (JObj ?q) # []"
    by (simp add: accepting_fields)
  have l: "list_all2 answers [?p] [job ''processing'' [''u1'']]"
    "list_all in_progress [job ''processing'' [''u1'']]"
    by (simp_all add: answers_poll_reply job_in_progress)
  have st: "status ?q = Some ''succeeded''" by (simp add: job_def)
  from succeeded_poll [OF h accepting_fields(1) r job_in_progress(1) ps l answers_poll_reply st]
  obtain s' where s': "handleButtonClick (accepting [?p, poll_reply 200 (JObj ?q)])
        (idle ''a tiger'') = Resolved s'"
    "handles s' \<subseteq> handles (idle ''a tiger'') - {next_handle (idle ''a tiger'')}"
    "progress s' = 100" "predictionOn s' = False" "prediction s' = Some ?q"
    "length (filter is_get (effects s')) = Suc (length [?p])"
    by blast
  from s'(2) have "handles s' = {}" by (simp add: idle_handles)
  then have "timers s' = []" by (simp add: handles_def)
  with s' show ?thesis by simp
qed

text \<open>
  C1. A poll sequence that ends with status \<open>failed\<close> should stop the loop, leave the
  in-flight flag false and release the interval. On the run below (the job is accepted,
  the first poll is answered with 200 and \<open>failed\<close>, the interval having fired three
  times meanwhile) the loop does stop after its single fetch, but the branch for
  \<open>succeeded\<close> is the only one that cleans up: the handler resolves with the flag
  still true and the interval still running, and its next callback moves the progress
  from 3 to 4.
\<close>

theorem failed_poll_run:
  "handleButtonClick (accepting [poll_reply 200 (JObj (job ''failed'' []))]) (idle ''a tiger'') =
     Resolved
       \<lparr>message = ''a tiger'', progress = 3, predictionOn = True,
        prediction = Some (job ''failed'' []), error = None,
        timers = [(0, 4)], next_handle = 1,
        effects =
          [SetError None, SetPredictionOn True,
           Post ''/api/prediction'' ''in the style of TOK,a tiger as a tattoo'',
           SetPrediction (Some (job ''starting'' [])), SetProgress 0, SetInterval 750,
           Sleep 2000, Get ''/api/predictionState/j1'', SetPrediction (Some (job ''failed'' []))],
        progress_log = [0, 1, 2, 3]\<rparr> \<and>
   progress (fire 0 (final (handleButtonClick
      (accepting [poll_reply 200 (JObj (job ''failed'' []))]) (idle ''a tiger'')))) = 4"
  by (simp add: run_defs sample_defs cong: let_weak_cong)

text \<open>
  C4. A poll answered with a status other than 200 should surface the body's
  \<open>detail\<close>, stop polling, clear the in-flight flag and stop the interval. On the run
  below (the job is accepted, the first poll is answered with 500 and a \<open>detail\<close>)
  the handler sets the error to that \<open>detail\<close> and returns after its single fetch,
  but it returns at once: the flag is still true and the interval still running, and
  its next callback moves the progress from 3 to 4.
\<close>

theorem rejected_poll_run:
  "handleButtonClick (accepting [poll_reply 500 (JObj (problem ''Internal error''))])
     (idle ''a tiger'') =
     Resolved
       \<lparr>message = ''a tiger'', progress = 3, predictionOn = True,
        prediction = Some (job ''starting'' []), error = Some ''Internal error'',
        timers = [(0, 4)], next_handle = 1,
        effects =
          [SetError None, SetPredictionOn True,
           Post ''/api/prediction'' ''in the style of TOK,a tiger as a tattoo'',
           SetPrediction (Some (job ''starting'' [])), SetProgress 0, SetInterval 750,
           Sleep 2000, Get ''/api/predictionState/j1'', SetError (Some ''Internal error'')],
        progress_log = [0, 1, 2, 3]\<rparr> \<and>
   progress (fire 0 (final (handleButtonClick
      (accepting [poll_reply 500 (JObj (problem ''Internal error''))]) (idle ''a tiger'')))) = 4"
  by (simp add: run_defs sample_defs cong: let_weak_cong)

section \<open>The answers to the creation request\<close>

text \<open>
  C2. A creation request answered with 429 should leave the rate-limit text as the
  error, clear the in-flight flag and never poll. On the runs below the flag is cleared
  and no status fetch is issued, and the rate-limit text is set; but the branch does not
  return, so the body is parsed and, the status not being 201, the error is set again
  to the body's \<open>detail\<close>: it ends as the service's text, not the rate-limit text,
  and as no error at all when the body has no \<open>detail\<close>.
\<close>

theorem quota_reply_run:
  "handleButtonClick
     \<lparr>created = reply [] 429 (JObj (problem ''Too many requests'')), polls = []\<rparr>
     (idle ''a tiger'') =
     Resolved
       \<lparr>message = ''a tiger'', progress = 0, predictionOn = False, prediction = None,
        error = Some ''Too many requests'', timers = [], next_handle = 0,
        effects =
          [SetError None, SetPredictionOn True,
           Post ''/api/prediction'' ''in the style of TOK,a tiger as a tattoo'',
           SetError (Some rate_limit_text), SetPredictionOn False,
           SetError (Some ''Too many requests''), SetPredictionOn False],
        progress_log = []\<rparr> \<and>
   error (final (handleButtonClick
     \<lparr>created = reply [] 429
        (JObj \<lparr>output = None, status = None, pid = None, detail = None\<rparr>), polls = []\<rparr>
     (idle ''a tiger''))) = None \<and>
   Some ''Too many requests'' \<noteq> Some rate_limit_text"
  by (simp add: run_defs sample_defs rate_limit_text_def cong: let_weak_cong)

text \<open>
  C9. A creation request answered with a status that is neither 201 nor 429 should
  surface the body's \<open>detail\<close> as the error and not poll. The statements after the
  parsing of the body do that for any status other than 201, and the polling loop does
  it for a 500; but for a status outside 200 to 299 the handler has thrown before it
  reads the body. On the run below (the creation is answered with 500 and a \<open>detail\<close>)
  no status fetch is issued and the flag is cleared, but the \<open>detail\<close> is never read:
  the error stays absent, and the console gets \<open>HTTP error! status: 500\<close>.
\<close>

theorem service_error_run:
  "handleButtonClick
     \<lparr>created = reply [] 500 (JObj (problem ''Internal error'')), polls = []\<rparr>
     (idle ''a tiger'') =
     Resolved
       \<lparr>message = ''a tiger'', progress = 0, predictionOn = False, prediction = None,
        error = None, timers = [], next_handle = 0,
        effects =
          [SetError None, SetPredictionOn True,
           Post ''/api/prediction'' ''in the style of TOK,a tiger as a tattoo'',
           SetPredictionOn False,
           ConsoleLog ''There was a problem with the fetch operation: HTTP error! status: 500''],
        progress_log = []\<rparr> \<and>
   detail (problem ''Internal error'') = Some ''Internal error''"
  by (simp add: run_defs sample_defs decimal.simps digit_def fetch_problem_text_def
      cong: let_weak_cong)

section \<open>Transport failures\<close>

lemma never_rejected_catch: "catch r \<noteq> Rejected x s"
  by (cases r) simp_all

lemma never_rejected: "handleButtonClick ev s \<noteq> Rejected x s'"
  by (simp add: handleButtonClick_def Let_def never_rejected_catch)

lemma log_text [simp]:
  "effects (case x of Error t \<Rightarrow> emit (ConsoleLog (fetch_problem_text @ t)) s | NotAnError \<Rightarrow> s) =
   effects s @ console x"
  "error (case x of Error t \<Rightarrow> emit (ConsoleLog (f t)) s | NotAnError \<Rightarrow> s) = error s"
  "predictionOn (case x of Error t \<Rightarrow> emit (ConsoleLog (f t)) s | NotAnError \<Rightarrow> s) =
   predictionOn s"
  by (cases x; simp add: setters console_def)+

lemma gets_console [simp]: "filter is_get (console x) = []"
  by (cases x) (simp_all add: console_def is_get_def)

text \<open>
  C3 as stated fails: when the creation fetch rejects (the network is down), the handler
  does not end with any error text in the state.
\<close>

theorem transport_failure_counterexample:
  "\<not> (\<exists>s' t. handleButtonClick \<lparr>created = Rejects [] (Error ''Failed to fetch''), polls = []\<rparr>
          (idle ''a tiger'') = Resolved s' \<and> error s' = Some t)"
  by (simp add: run_defs sample_defs)

text \<open>
  C3, as the code has it. The handler's promise never rejects. When the creation fetch
  rejects, when the parsing of the creation response's body rejects, or when the
  fetch or the body parsing of a poll rejects (after any number of answers that report
  the job in progress), the handler resolves with the in-flight flag cleared. The
  \<open>catch\<close> clause does not touch the error: it stays as it was when the value was
  thrown (absent, or the rate-limit text when the response was a 429), and the failure
  text goes to the console only, when the thrown value is an \<open>Error\<close>.
\<close>

theorem transport_failure_resolves:
  assumes "message s \<noteq> []" "length (message s) \<le> 2000"
  shows "(\<forall>y s'. handleButtonClick ev s \<noteq> Rejected y s') \<and>
    (created ev = Rejects n x \<longrightarrow>
       (\<exists>s'. handleButtonClick ev s = Resolved s' \<and> predictionOn s' = False \<and>
          error s' = None \<and>
          effects s' = [SetError None, SetPredictionOn True, Post apiRoute (prompt_of s),
                        SetPredictionOn False] @ console x)) \<and>
    (created ev = Fulfils n r \<and> (ok r \<or> http_status r = 429) \<and> json r = Rejects m x \<longrightarrow>
       (\<exists>s'. handleButtonClick ev s = Resolved s' \<and> predictionOn s' = False \<and>
          error s' = (if ok r then None else Some rate_limit_text) \<and>
          filter is_get (effects s') = [] \<and>
          (\<exists>acts. effects s' = acts @ [SetPredictionOn False] @ console x))) \<and>
    (created ev = Fulfils n r \<and> http_status r = 201 \<and> json r = Fulfils m (JObj q0) \<and>
     in_progress q0 \<and> polls ev = pre @ e # rest \<and> list_all2 answers pre qs \<and>
     list_all in_progress qs \<and> transport_failure e = Some x \<longrightarrow>
       (\<exists>s'. handleButtonClick ev s = Resolved s' \<and> predictionOn s' = False \<and>
          error s' = None \<and>
          length (filter is_get (effects s')) = Suc (length pre) \<and>
          (\<exists>acts. effects s' = acts @ [SetPredictionOn False] @ console x)))"
proof (intro conjI impI allI)
  show "\<And>y s'. handleButtonClick ev s \<noteq> Rejected y s'" by (rule never_rejected)
next
  assume "created ev = Rejects n x"
  then show "\<exists>s'. handleButtonClick ev s = Resolved s' \<and> predictionOn s' = False \<and>
          error s' = None \<and>
          effects s' = [SetError None, SetPredictionOn True, Post apiRoute (prompt_of s),
                        SetPredictionOn False] @ console x"
    using assms
    by (simp add: handleButtonClick_def try_block_def Let_def setters prompt_of_def)
next
  assume a: "created ev = Fulfils n r \<and> (ok r \<or> http_status r = 429) \<and> json r = Rejects m x"
  then have "\<not> ok r \<longrightarrow> http_status r = 429" by blast
  with a show "\<exists>s'. handleButtonClick ev s = Resolved s' \<and> predictionOn s' = False \<and>
          error s' = (if ok r then None else Some rate_limit_text) \<and>
          filter is_get (effects s') = [] \<and>
          (\<exists>acts. effects s' = acts @ [SetPredictionOn False] @ console x)"
    using assms
    by (simp add: handleButtonClick_def try_block_def from_response_def Let_def setters
        is_get_def)
next
  assume a: "created ev = Fulfils n r \<and> http_status r = 201 \<and> json r = Fulfils m (JObj q0) \<and>
     in_progress q0 \<and> polls ev = pre @ e # rest \<and> list_all2 answers pre qs \<and>
     list_all in_progress qs \<and> transport_failure e = Some x"
  let ?a = "accepted q0 (fires (n @ m) (begin_call s))"
  let ?w = "waited (status_url q0) pre qs ?a"
  have last: "in_progress (last (q0 # qs))"
    using a by (cases qs rule: rev_cases) simp_all
  have len: "length qs = length pre"
    using a by (auto dest: list_all2_lengthD)
  have "handleButtonClick ev s =
        catch (poll_loop (status_url q0) (next_handle s) q0 (pre @ e # rest) ?a)"
    using accepted_submission [OF assms, of ev n r m q0] a by simp
  also have "poll_loop (status_url q0) (next_handle s) q0 (pre @ e # rest) ?a =
      poll_loop (status_url q0) (next_handle s) (last (q0 # qs)) (e # rest) ?w"
    using a by (intro continuing_prefix) simp_all
  also have "\<dots> = Rejected x (emit (Get (status_url q0)) (emit (Sleep 2000)
        (fires (poll_ticks e) ?w)))"
    using a by (intro poll_fail_step last) simp
  finally show "\<exists>s'. handleButtonClick ev s = Resolved s' \<and> predictionOn s' = False \<and>
          error s' = None \<and>
          length (filter is_get (effects s')) = Suc (length pre) \<and>
          (\<exists>acts. effects s' = acts @ [SetPredictionOn False] @ console x)"
    using len
    by (simp add: setters Let_def gets_iteration is_get_def)
qed

theorem transport_failure_resolves_witness:
  "(\<exists>s'. handleButtonClick \<lparr>created = Rejects [] (Error ''Failed to fetch''), polls = []\<rparr>
          (idle ''a tiger'') = Resolved s' \<and> predictionOn s' = False \<and> error s' = None) \<and>
   (\<exists>s'. handleButtonClick
          \<lparr>created = Fulfils [] \<lparr>http_status = 201, json = Rejects [] (Error ''Unexpected token'')\<rparr>,
           polls = []\<rparr>
          (idle ''a tiger'') = Resolved s' \<and> predictionOn s' = False \<and> error s' = None) \<and>
   (\<exists>s'. handleButtonClick
          (accepting [\<lparr>sleep_ticks = [0, 0], fetched = Rejects [0] (Error ''Failed to fetch'')\<rparr>])
          (idle ''a tiger'') = Resolved s' \<and> predictionOn s' = False \<and> error s' = None \<and>
          length (filter is_get (effects s')) = 1)"
proof -
  let ?x = "Error ''Failed to fetch''"
  let ?e1 = "\<lparr>created = Rejects [] ?x, polls = []\<rparr>"
  let ?r2 = "\<lparr>http_status = 201, json = Rejects [] (Error ''Unexpected token'')\<rparr>"
  let ?e2 = "\<lparr>created = Fulfils [] ?r2, polls = []\<rparr>"
  let ?p = "\<lparr>sleep_ticks = [0, 0], fetched = Rejects [0] ?x\<rparr>"
  let ?r3 = "\<lparr>http_status = 201, json = Fulfils [] (JObj (job ''starting'' []))\<rparr>"
  have h: "message (idle ''a tiger'') \<noteq> []" "length (message (idle ''a tiger'')) \<le> 2000"
    by (simp_all add: idle_message)
  have "\<exists>s'. handleButtonClick ?e1 (idle ''a tiger'') = Resolved s' \<and> predictionOn s' = False \<and>
      error s' = None"
    using transport_failure_resolves [OF h, where ev = ?e1 and n = "[]" and x = ?x] by auto
  moreover have "\<exists>s'. handleButtonClick ?e2 (idle ''a tiger'') = Resolved s' \<and>
      predictionOn s' = False \<and> error s' = None"
    using transport_failure_resolves [OF h, where ev = ?e2 and n = "[]" and r = ?r2 and m = "[]"
        and x = "Error ''Unexpected token''"]
    by (auto simp: ok_def)
  moreover have "\<exists>s'. handleButtonClick (accepting [?p]) (idle ''a tiger'') = Resolved s' \<and>
      predictionOn s' = False \<and> error s' = None \<and> length (filter is_get (effects s')) = 1"
    using transport_failure_resolves [OF h, where ev = "accepting [?p]" and x = ?x and n = "[]"
        and r = ?r3 and m = "[]" and ?q0.0 = "job ''starting'' []" and pre = "[]" and e = ?p
        and rest = "[]" and qs = "[]"]
    by (auto simp: accepting_fields job_in_progress transport_failure_def)
  ultimately show ?thesis by blast
qed

section \<open>The progress bar\<close>

text \<open>
  C7. The progress should be reset to 0 when a submission is accepted, rise by one with
  every firing of the interval, never decrease while the job is in flight and never
  exceed 100. The \<open>catch\<close> clause re-enables the button without clearing the interval,
  so a second click finds the interval of the first still running. On the run below the
  first click's status fetch rejects after three firings; during the second click's
  job the two intervals fire in turn and the progress takes the values 0, 4, 1, 5, 2,
  6, 3 before the forced 100: it decreases while the job is in flight. After the success
  the earlier interval is still running, and its next firing takes the progress from
  100 back to 7.
\<close>

theorem leaked_interval_run:
  "handleButtonClick first_click (idle ''a tiger'') =
     Resolved
       \<lparr>message = ''a tiger'', progress = 3, predictionOn = False,
        prediction = Some (job ''starting'' []), error = None,
        timers = [(0, 4)], next_handle = 1,
        effects =
          [SetError None, SetPredictionOn True,
           Post ''/api/prediction'' ''in the style of TOK,a tiger as a tattoo'',
           SetPrediction (Some (job ''starting'' [])), SetProgress 0, SetInterval 750,
           Sleep 2000, Get ''/api/predictionState/j1'', SetPredictionOn False,
           ConsoleLog ''There was a problem with the fetch operation: Failed to fetch''],
        progress_log = [0, 1, 2, 3]\<rparr> \<and>
   handleButtonClick second_click (final (handleButtonClick first_click (idle ''a tiger''))) =
     Resolved
       \<lparr>message = ''a tiger'', progress = 100, predictionOn = False,
        prediction = Some (job ''succeeded'' [''u1'', ''u2'', ''u3'', ''u4'']), error = None,
        timers = [(0, 7)], next_handle = 2,
        effects =
          [SetError None, SetPredictionOn True,
           Post ''/api/prediction'' ''in the style of TOK,a tiger as a tattoo'',
           SetPrediction (Some (job ''starting'' [])), SetProgress 0, SetInterval 750,
           Sleep 2000, Get ''/api/predictionState/j1'',
           SetPrediction (Some (job ''succeeded'' [''u1'', ''u2'', ''u3'', ''u4''])),
           ClearInterval, SetProgress 100, SetPredictionOn False],
        progress_log = [0, 4, 1, 5, 2, 6, 3, 100]\<rparr> \<and>
   \<not> sorted [0, 4, 1, 5, 2, 6, 3, 100 :: nat] \<and>
   progress (fire 0 (final (handleButtonClick second_click
      (final (handleButtonClick first_click (idle ''a tiger'')))))) = 7"
  by (simp add: run_defs sample_defs fetch_problem_text_def cong: let_weak_cong)

end
